theory Spec2Isabelle
  imports Complex_Main
begin

section \<open>Python values, dictionaries and exceptions\<close>

text \<open>
  The plugin handles JSON answers of the remote service as Python dictionaries
  (\<^verbatim>\<open>Dict[str, Any]\<close>). A dictionary is an association list in insertion order whose
  keys are pairwise different; lookup is \<open>map_of\<close>. The values are those of JSON without
  the numbers that are not integers.
\<close>

datatype pyval =
    PNone
  | PBool bool
  | PInt int
  | PStr string
  | PList "pyval list"
  | PDict "(string \<times> pyval) list"

type_synonym pydict = "(string \<times> pyval) list"

text \<open>
  The exceptions the modelled code raises or lets through. \<open>RuntimeError\<close> carries what
  the message of the source interpolates: \<open>RequestFailed name ret\<close> is the message of
  \<^verbatim>\<open>ncm_request\<close> (the name of the API function and the answer), \<open>LoginStateInvalid\<close> the
  fixed message of \<^verbatim>\<open>login\<close>. An exception of a subclass of \<^verbatim>\<open>ValueError\<close> is a
  \<open>ValueError\<close>; \<open>OtherError\<close> is any exception outside these classes (a network failure
  of the client library, for instance).
\<close>

datatype runtime_message = RequestFailed string pydict | LoginStateInvalid

datatype py_error =
    RuntimeError runtime_message
  | ValueError string
  | IndexError
  | KeyError
  | TypeError
  | OtherError string

text \<open>Python's \<^verbatim>\<open>==\<close> on these values: \<^verbatim>\<open>bool\<close> is a subclass of \<^verbatim>\<open>int\<close>.\<close>

fun as_int :: "pyval \<Rightarrow> int option" where
  "as_int (PInt i) = Some i"
| "as_int (PBool b) = Some (if b then 1 else 0)"
| "as_int _ = None"

definition eq_int :: "pyval \<Rightarrow> int \<Rightarrow> bool" where
  "eq_int v n = (as_int v = Some n)"

text \<open>Truth value of an object, as \<^verbatim>\<open>assert x\<close> and \<^verbatim>\<open>if x\<close> test it.\<close>

fun truthy :: "pyval \<Rightarrow> bool" where
  "truthy PNone = False"
| "truthy (PBool b) = b"
| "truthy (PInt i) = (i \<noteq> 0)"
| "truthy (PStr s) = (s \<noteq> [])"
| "truthy (PList xs) = (xs \<noteq> [])"
| "truthy (PDict d) = (d \<noteq> [])"

section \<open>The expiring cache (msg\_cache.py)\<close>

text \<open>
  \<^verbatim>\<open>CacheManager\<close> is a \<^verbatim>\<open>dict\<close> from a key to the pair (insertion time, value). The
  operations of the underlying \<^verbatim>\<open>dict\<close> come first. \<^verbatim>\<open>d[k] = v\<close> keeps the place of a
  key that is present and appends a new key; \<^verbatim>\<open>del d[k]\<close> raises \<^verbatim>\<open>KeyError\<close> on a key
  that is absent.
\<close>

fun dict_setitem :: "'k \<Rightarrow> 'e \<Rightarrow> ('k \<times> 'e) list \<Rightarrow> ('k \<times> 'e) list" where
  "dict_setitem k e [] = [(k, e)]"
| "dict_setitem k e ((k', e') # d) =
     (if k' = k then (k, e) # d else (k', e') # dict_setitem k e d)"

fun dict_remove :: "'k \<Rightarrow> ('k \<times> 'e) list \<Rightarrow> ('k \<times> 'e) list" where
  "dict_remove k [] = []"
| "dict_remove k ((k', e') # d) = (if k' = k then d else (k', e') # dict_remove k d)"

definition dict_delitem :: "'k \<Rightarrow> ('k \<times> 'e) list \<Rightarrow> py_error + ('k \<times> 'e) list" where
  "dict_delitem k d = (if map_of d k = None then Inl KeyError else Inr (dict_remove k d))"

definition dict_copy :: "('k \<times> 'e) list \<Rightarrow> ('k \<times> 'e) list" where
  "dict_copy d = d"

text \<open>
  The time stamps are the results of \<^verbatim>\<open>time.time()\<close>; the clock is read by the caller
  and passed as \<open>now\<close>. The type of time stamps is any type with a subtraction and an
  order: the model uses no other fact about the arithmetic of the clock. The threshold
  \<^verbatim>\<open>config.ncm_msg_cache_time\<close> is the parameter \<open>ncm_msg_cache_time\<close>.
\<close>

type_synonym ('k, 't, 'v) cache = "('k \<times> ('t \<times> 'v)) list"

definition CacheManager_getitem :: "('k, 't, 'v) cache \<Rightarrow> 'k \<Rightarrow> py_error + 'v" where
  "CacheManager_getitem d k =
     (case map_of d k of None \<Rightarrow> Inl KeyError | Some it \<Rightarrow> Inr (snd it))"

text \<open>
  \<^verbatim>\<open>get\<close>: \<^verbatim>\<open>it = super().get(key); return it[1] if it else default\<close>. A stored entry is a
  pair, and a pair is never false, so only the absent key gives the default.
\<close>

definition CacheManager_get :: "('k, 't, 'v) cache \<Rightarrow> 'k \<Rightarrow> 'v \<Rightarrow> 'v" where
  "CacheManager_get d k dflt =
     (case map_of d k of None \<Rightarrow> dflt | Some it \<Rightarrow> snd it)"

definition CacheManager_setitem :: "'t \<Rightarrow> 'k \<Rightarrow> 'v \<Rightarrow> ('k, 't, 'v) cache \<Rightarrow> ('k, 't, 'v) cache" where
  "CacheManager_setitem now k v d = dict_setitem k (now, v) d"

definition CacheManager_set :: "'t \<Rightarrow> 'k \<Rightarrow> 'v \<Rightarrow> ('k, 't, 'v) cache \<Rightarrow> ('k, 't, 'v) cache" where
  "CacheManager_set now k v d = CacheManager_setitem now k v d"

definition CacheManager_values :: "('k, 't, 'v) cache \<Rightarrow> 'v list" where
  "CacheManager_values d = map (\<lambda>(k, it). snd it) d"

definition CacheManager_items :: "('k, 't, 'v) cache \<Rightarrow> ('k \<times> 'v) list" where
  "CacheManager_items d = map (\<lambda>(k, it). (k, snd it)) d"

text \<open>
  \<^verbatim>\<open>pop\<close>: \<^verbatim>\<open>super().pop(key)[1]\<close>, and the default when that raises \<^verbatim>\<open>KeyError\<close>. The
  result is the returned value and the cache after the call.
\<close>

definition CacheManager_pop :: "('k, 't, 'v) cache \<Rightarrow> 'k \<Rightarrow> 'v \<Rightarrow> 'v \<times> ('k, 't, 'v) cache" where
  "CacheManager_pop d k dflt =
     (case map_of d k of
        None \<Rightarrow> (dflt, d)
      | Some it \<Rightarrow> (snd it, dict_remove k d))"

text \<open>
  \<^verbatim>\<open>clear_expired\<close>: the loop runs over the items of a copy and deletes from the cache
  itself. \<open>sweep\<close> is the loop, its first list the items still to visit.
\<close>

fun sweep :: "'t::{minus,ord} \<Rightarrow> 't \<Rightarrow> ('k \<times> ('t \<times> 'v)) list \<Rightarrow> ('k, 't, 'v) cache
    \<Rightarrow> py_error + ('k, 't, 'v) cache" where
  "sweep now_t ncm_msg_cache_time [] d = Inr d"
| "sweep now_t ncm_msg_cache_time ((k, (create_t, _)) # rest) d =
     (if now_t - create_t \<ge> ncm_msg_cache_time
      then (case dict_delitem k d of
              Inl e \<Rightarrow> Inl e
            | Inr d' \<Rightarrow> sweep now_t ncm_msg_cache_time rest d')
      else sweep now_t ncm_msg_cache_time rest d)"

definition CacheManager_clear_expired :: "'t::{minus,ord} \<Rightarrow> 't \<Rightarrow> ('k, 't, 'v) cache
    \<Rightarrow> py_error + ('k, 't, 'v) cache" where
  "CacheManager_clear_expired now_t ncm_msg_cache_time d =
     sweep now_t ncm_msg_cache_time (dict_copy d) d"

text \<open>A \<^verbatim>\<open>dict\<close> holds every key once.\<close>

definition wf_dict :: "('k \<times> 'e) list \<Rightarrow> bool" where
  "wf_dict d = distinct (map fst d)"

section \<open>Requests to the remote service (data\_source.py)\<close>

text \<open>
  The configuration of the plugin (\<^verbatim>\<open>config\<close>): the options the modelled code reads.
  A string option that is not filled in is \<^verbatim>\<open>None\<close>.
\<close>

record config =
  ncm_list_limit :: int
  ncm_max_name_len :: int
  ncm_max_artist_len :: int
  ncm_ctcode :: int
  ncm_phone :: "string option"
  ncm_email :: "string option"
  ncm_password :: "string option"
  ncm_password_hash :: "string option"

text \<open>\<^verbatim>\<open>get_offset_by_page_num(page, limit)\<close>; Python integers are unbounded.\<close>

definition get_offset_by_page_num :: "int \<Rightarrow> int \<Rightarrow> int" where
  "get_offset_by_page_num page limit = limit * (page - 1)"

text \<open>
  A function of the client library that \<^verbatim>\<open>ncm_request\<close> is given: its \<^verbatim>\<open>__name__\<close> and
  what calling it with the arguments \<open>'a\<close> gives, an exception of its own or the parsed
  answer.
\<close>

record 'a api =
  api_name :: string
  api_call :: "'a \<Rightarrow> py_error + pydict"

definition dict_get :: "pydict \<Rightarrow> string \<Rightarrow> pyval \<Rightarrow> pyval" where
  "dict_get d k dflt = (case map_of d k of None \<Rightarrow> dflt | Some v \<Rightarrow> v)"

definition dict_getitem :: "pydict \<Rightarrow> string \<Rightarrow> py_error + pyval" where
  "dict_getitem d k = (case map_of d k of None \<Rightarrow> Inl KeyError | Some v \<Rightarrow> Inr v)"

text \<open>
  \<^verbatim>\<open>ncm_request\<close>: \<^verbatim>\<open>if ret.get("code", 200) != 200: raise RuntimeError(...)\<close>, else
  \<^verbatim>\<open>return ret\<close>. The call to the logger changes nothing and is left out.
\<close>

definition ncm_request :: "'a api \<Rightarrow> 'a \<Rightarrow> py_error + pydict" where
  "ncm_request api args =
     (case api_call api args of
        Inl e \<Rightarrow> Inl e
      | Inr ret \<Rightarrow>
          if \<not> eq_int (dict_get ret ''code'' (PInt 200)) 200
          then Inl (RuntimeError (RequestFailed (api_name api) ret))
          else Inr ret)"

text \<open>
  The keyword arguments \<^verbatim>\<open>search_song\<close> passes to \<^verbatim>\<open>GetSearchResult\<close>, and the payload
  the closure \<^verbatim>\<open>SearchVoice\<close> of \<^verbatim>\<open>search_voice\<close> returns. The callers in the sources pass
  no further keyword arguments.
\<close>

record search_args =
  keyword :: string
  limit :: int
  offset :: int

record voice_payload =
  voice_path :: string
  voice_keyword :: string
  voice_scene :: string
  voice_limit :: int
  voice_offset :: int

definition search_song_args :: "config \<Rightarrow> string \<Rightarrow> int \<Rightarrow> search_args" where
  "search_song_args cfg kw page =
     (let offset = get_offset_by_page_num page (ncm_list_limit cfg)
      in \<lparr>keyword = kw, limit = ncm_list_limit cfg, offset = offset\<rparr>)"

text \<open>\<^verbatim>\<open>"offset": offset or 0\<close>: Python's \<^verbatim>\<open>or\<close> gives the right operand when the left is 0.\<close>

definition search_voice_payload :: "config \<Rightarrow> string \<Rightarrow> int \<Rightarrow> voice_payload" where
  "search_voice_payload cfg kw page =
     (let offset = get_offset_by_page_num page (ncm_list_limit cfg)
      in \<lparr>voice_path = ''/api/search/voice/get'', voice_keyword = kw, voice_scene = ''normal'',
          voice_limit = ncm_list_limit cfg,
          voice_offset = (if offset \<noteq> 0 then offset else 0)\<rparr>)"

text \<open>
  The classes of \<^verbatim>\<open>types\<close> are pydantic models that are not among the sources here.
  What the modelled code does with them is a parameter: \<open>Privilege kw\<close> is
  \<^verbatim>\<open>Privilege(**kw)\<close>, \<open>Privilege_id y\<close> is \<^verbatim>\<open>y.id\<close> (an integer),
  \<open>SongModel kw p\<close> is \<^verbatim>\<open>Song(**kw, privilege=p)\<close>, \<open>SongModel_bool s\<close> the truth value
  of a song object, \<open>SongSearchResult kw\<close> is \<^verbatim>\<open>SongSearchResult(**kw)\<close>. A constructor
  raises when the keyword arguments do not validate.
\<close>

record ('s) song_search_result =
  songs :: "'s list option"
  songCount :: int

record ('p, 's) types =
  Privilege :: "pydict \<Rightarrow> py_error + 'p"
  Privilege_id :: "'p \<Rightarrow> int"
  SongModel :: "pydict \<Rightarrow> 'p \<Rightarrow> py_error + 's"
  SongModel_bool :: "'s \<Rightarrow> bool"
  SongSearchResult :: "pydict \<Rightarrow> py_error + 's song_search_result"

text \<open>\<^verbatim>\<open>f(**x)\<close> needs a mapping.\<close>

definition unpack :: "pyval \<Rightarrow> py_error + pydict" where
  "unpack x = (case x of PDict kw \<Rightarrow> Inr kw | _ \<Rightarrow> Inl TypeError)"

text \<open>
  \<^verbatim>\<open>for x in v\<close>: a list gives its elements, a string its characters, a dictionary its
  keys; the other values are not iterable.
\<close>

fun iterate :: "pyval \<Rightarrow> py_error + pyval list" where
  "iterate (PList xs) = Inr xs"
| "iterate (PStr s) = Inr (map (\<lambda>c. PStr [c]) s)"
| "iterate (PDict d) = Inr (map (\<lambda>(k, v). PStr k) d)"
| "iterate _ = Inl TypeError"

text \<open>A list comprehension whose element expression may raise: the first exception ends it.\<close>

fun comprehension :: "('a \<Rightarrow> py_error + 'b) \<Rightarrow> 'a list \<Rightarrow> py_error + 'b list" where
  "comprehension f [] = Inr []"
| "comprehension f (x # xs) =
     (case f x of
        Inl e \<Rightarrow> Inl e
      | Inr y \<Rightarrow> (case comprehension f xs of Inl e \<Rightarrow> Inl e | Inr ys \<Rightarrow> Inr (y # ys)))"

text \<open>\<^verbatim>\<open>search_song\<close>: \<^verbatim>\<open>SongSearchResult(**res["result"])\<close> of the checked answer.\<close>

definition search_song :: "('p, 's) types \<Rightarrow> config \<Rightarrow> search_args api \<Rightarrow> string \<Rightarrow> int
    \<Rightarrow> py_error + 's song_search_result" where
  "search_song T cfg GetSearchResult kw page =
     (case ncm_request GetSearchResult (search_song_args cfg kw page) of
        Inl e \<Rightarrow> Inl e
      | Inr res \<Rightarrow>
          (case dict_getitem res ''result'' of
             Inl e \<Rightarrow> Inl e
           | Inr r \<Rightarrow> (case unpack r of Inl e \<Rightarrow> Inl e | Inr kw \<Rightarrow> SongSearchResult T kw)))"

text \<open>
  \<^verbatim>\<open>get_track_info\<close>. The dictionary \<^verbatim>\<open>privileges\<close> is keyed by \<^verbatim>\<open>y.id\<close>, a later record
  of the same id replacing an earlier one. \<open>privileges_find\<close> is the test
  \<^verbatim>\<open>song_id in privileges\<close> together with \<^verbatim>\<open>privileges[song_id]\<close>: the id of the song is
  whatever the answer holds under \<^verbatim>\<open>"id"\<close>; a list or a dictionary cannot be hashed, a
  string or \<^verbatim>\<open>None\<close> equals no integer key.
\<close>

definition privileges_dict :: "('p, 's) types \<Rightarrow> 'p list \<Rightarrow> (int \<times> 'p) list" where
  "privileges_dict T ys = fold (\<lambda>y d. dict_setitem (Privilege_id T y) y d) ys []"

fun privileges_find :: "(int \<times> 'p) list \<Rightarrow> pyval \<Rightarrow> py_error + 'p option" where
  "privileges_find privileges (PList xs) = Inl TypeError"
| "privileges_find privileges (PDict d) = Inl TypeError"
| "privileges_find privileges v =
     (case as_int v of None \<Rightarrow> Inr None | Some i \<Rightarrow> Inr (map_of privileges i))"

definition default_privilege :: "pyval \<Rightarrow> pydict" where
  "default_privilege song_id = [(''id'', song_id), (''pl'', PInt 128000)]"

definition track_song :: "('p, 's) types \<Rightarrow> (int \<times> 'p) list \<Rightarrow> pyval \<Rightarrow> py_error + 's" where
  "track_song T privileges x =
     (case unpack x of
        Inl e \<Rightarrow> Inl e
      | Inr kw \<Rightarrow>
          (case dict_getitem kw ''id'' of
             Inl e \<Rightarrow> Inl e
           | Inr song_id \<Rightarrow>
               (case privileges_find privileges song_id of
                  Inl e \<Rightarrow> Inl e
                | Inr (Some p) \<Rightarrow> SongModel T kw p
                | Inr None \<Rightarrow>
                    (case Privilege T (default_privilege song_id) of
                       Inl e \<Rightarrow> Inl e
                     | Inr p \<Rightarrow> SongModel T kw p))))"

definition get_track_info :: "('p, 's) types \<Rightarrow> int list api \<Rightarrow> int list \<Rightarrow> py_error + 's list" where
  "get_track_info T GetTrackDetail ids =
     (case ncm_request GetTrackDetail ids of
        Inl e \<Rightarrow> Inl e
      | Inr res \<Rightarrow>
          (case dict_getitem res ''privileges'' of
             Inl e \<Rightarrow> Inl e
           | Inr ps \<Rightarrow>
               (case iterate ps of
                  Inl e \<Rightarrow> Inl e
                | Inr xs \<Rightarrow>
                    (case comprehension (\<lambda>x. case unpack x of Inl e \<Rightarrow> Inl e
                                               | Inr kw \<Rightarrow> Privilege T kw) xs of
                       Inl e \<Rightarrow> Inl e
                     | Inr ys \<Rightarrow>
                         (case dict_getitem res ''songs'' of
                            Inl e \<Rightarrow> Inl e
                          | Inr ss \<Rightarrow>
                              (case iterate ss of
                                 Inl e \<Rightarrow> Inl e
                               | Inr zs \<Rightarrow>
                                   comprehension (track_song T (privileges_dict T ys)) zs))))))"

section \<open>The song provider (providers/song.py)\<close>

text \<open>\<^verbatim>\<open>f"{i}"\<close> for an integer: its decimal digits, with a minus sign when negative.\<close>

definition digit_char :: "nat \<Rightarrow> char" where
  "digit_char n = char_of (48 + n)"

fun str_nat :: "nat \<Rightarrow> string" where
  "str_nat n = (if n < 10 then [digit_char n] else str_nat (n div 10) @ [digit_char (n mod 10)])"

declare str_nat.simps [simp del]

definition str_int :: "int \<Rightarrow> string" where
  "str_int i = (if i < 0 then CHR ''-'' # str_nat (nat (- i)) else str_nat (nat i))"

text \<open>\<^verbatim>\<open>enumerate(xs, start)\<close>.\<close>

fun enumerate_from :: "int \<Rightarrow> 'a list \<Rightarrow> (int \<times> 'a) list" where
  "enumerate_from start [] = []"
| "enumerate_from start (x # xs) = (start, x) # enumerate_from (start + 1) xs"

text \<open>
  The table of \<^verbatim>\<open>draw\<close>, as the constructor calls of \<^verbatim>\<open>_build_search_resp\<close> fill it.
  Strings are the bytes of their UTF-8 form; the head titles and \<^verbatim>\<open>CALLING\<close> are Chinese
  words. An argument that is not passed is \<open>None\<close>.
\<close>

record table_head =
  head_name :: string
  head_align :: "string option"
  head_max_width :: "int option"

record table =
  table_heads :: "table_head list"
  table_rows :: "string list list"

record search_resp =
  resp_table :: table
  resp_calling :: string
  resp_page :: int
  resp_total :: int

definition CALLING :: string where
  "CALLING = [CHR 0xE6, CHR 0xAD, CHR 0x8C, CHR 0xE6, CHR 0x9B, CHR 0xB2]"

definition song_table_heads :: "config \<Rightarrow> table_head list" where
  "song_table_heads cfg =
     [\<lparr>head_name = [CHR 0xE5, CHR 0xBA, CHR 0x8F, CHR 0xE5, CHR 0x8F, CHR 0xB7],
        head_align = Some ''right'', head_max_width = None\<rparr>,
      \<lparr>head_name = [CHR 0xE6, CHR 0xAD, CHR 0x8C, CHR 0xE5, CHR 0x90, CHR 0x8D],
        head_align = None, head_max_width = Some (ncm_max_name_len cfg)\<rparr>,
      \<lparr>head_name = [CHR 0xE6, CHR 0xAD, CHR 0x8C, CHR 0xE6, CHR 0x89, CHR 0x8B],
        head_align = None, head_max_width = Some (ncm_max_artist_len cfg)\<rparr>,
      \<lparr>head_name = [CHR 0xE6, CHR 0x97, CHR 0xB6, CHR 0xE9, CHR 0x95, CHR 0xBF],
        head_align = Some ''center'', head_max_width = None\<rparr>,
      \<lparr>head_name = [CHR 0xE7, CHR 0x83, CHR 0xAD, CHR 0xE5, CHR 0xBA, CHR 0xA6],
        head_align = Some ''center'', head_max_width = None\<rparr>]"

text \<open>
  The four cells of a row after the rank are computed by \<^verbatim>\<open>format_alias\<close>,
  \<^verbatim>\<open>format_artists\<close> and \<^verbatim>\<open>format_time\<close> of \<^verbatim>\<open>utils\<close> and by \<^verbatim>\<open>f"{int(x.pop)}"\<close> from
  the fields of the song; \<^verbatim>\<open>utils\<close> and \<^verbatim>\<open>types\<close> are not among the sources here, and
  each cell is a parameter.
\<close>

record 's cells =
  name_cell :: "'s \<Rightarrow> string"
  artists_cell :: "'s \<Rightarrow> string"
  time_cell :: "'s \<Rightarrow> string"
  pop_cell :: "'s \<Rightarrow> string"

text \<open>
  Modelled from the spec: \<^verbatim>\<open>_calc_index_offset\<close> is a method of \<^verbatim>\<open>BaseSearcher\<close> in
  \<^verbatim>\<open>providers/base.py\<close>, which is not among the sources here. The spec: rank numbering
  starts at offset + 1, the offset being that of the page of the search request.
\<close>

definition calc_index_offset :: "config \<Rightarrow> int \<Rightarrow> int" where
  "calc_index_offset cfg page = get_offset_by_page_num page (ncm_list_limit cfg) + 1"

definition search_row :: "'s cells \<Rightarrow> int \<times> 's \<Rightarrow> string list" where
  "search_row C ix =
     (case ix of (i, x) \<Rightarrow>
        [''[b]'' @ str_int i @ ''[/b]'', name_cell C x, artists_cell C x, time_cell C x, pop_cell C x])"

text \<open>\<^verbatim>\<open>not resp.songs\<close> holds for \<^verbatim>\<open>None\<close> and for the empty list.\<close>

definition build_search_resp :: "config \<Rightarrow> 's cells \<Rightarrow> 's song_search_result \<Rightarrow> int
    \<Rightarrow> py_error + search_resp" where
  "build_search_resp cfg C resp page =
     (case songs resp of
        None \<Rightarrow> Inl (ValueError ''No song in raw response'')
      | Some [] \<Rightarrow> Inl (ValueError ''No song in raw response'')
      | Some ss \<Rightarrow>
          Inr \<lparr>resp_table =
                 \<lparr>table_heads = song_table_heads cfg,
                  table_rows = map (search_row C) (enumerate_from (calc_index_offset cfg page) ss)\<rparr>,
               resp_calling = CALLING, resp_page = page, resp_total = songCount resp\<rparr>)"

text \<open>
  The class \<^verbatim>\<open>Song\<close> wraps the model object as \<^verbatim>\<open>info\<close>. \<^verbatim>\<open>Song.from_id\<close> takes element 0
  of the list \<^verbatim>\<open>get_track_info\<close> returns, which raises \<^verbatim>\<open>IndexError\<close> on the empty list,
  and raises \<^verbatim>\<open>ValueError\<close> when that element is false.
\<close>

datatype 's song = Song (info: 's)

definition item0 :: "'a list \<Rightarrow> py_error + 'a" where
  "item0 xs = (case xs of [] \<Rightarrow> Inl IndexError | x # _ \<Rightarrow> Inr x)"

definition from_id :: "('p, 's) types \<Rightarrow> int list api \<Rightarrow> int \<Rightarrow> py_error + 's song" where
  "from_id T GetTrackDetail song_id =
     (case get_track_info T GetTrackDetail [song_id] of
        Inl e \<Rightarrow> Inl e
      | Inr infos \<Rightarrow>
          (case item0 infos of
             Inl e \<Rightarrow> Inl e
           | Inr found \<Rightarrow>
               if \<not> SongModel_bool T found then Inl (ValueError ''Song not found'')
               else Inr (Song found)))"

text \<open>\<^verbatim>\<open>search_by_id\<close>: \<^verbatim>\<open>except ValueError: return None\<close>; any other exception goes on.\<close>

definition search_by_id :: "('p, 's) types \<Rightarrow> int list api \<Rightarrow> int \<Rightarrow> py_error + 's song option" where
  "search_by_id T GetTrackDetail arg_id =
     (case from_id T GetTrackDetail arg_id of
        Inl (ValueError msg) \<Rightarrow> Inr None
      | Inl e \<Rightarrow> Inl e
      | Inr s \<Rightarrow> Inr (Some s))"

section \<open>Logging in (data\_source.py)\<close>

text \<open>
  The functions of the client library \<^verbatim>\<open>pyncm\<close> that \<^verbatim>\<open>login\<close> calls. A login function
  changes the current session or raises; \<open>GetCurrentLoginStatus n s\<close> is the answer to the
  call number \<open>n\<close> (counted from 0) made under the session \<open>s\<close>, so that the service may
  answer two calls differently.
\<close>

record 'ses pyncm =
  LoadSessionFromString :: "string \<Rightarrow> py_error + 'ses"
  DumpSessionAsString :: "'ses \<Rightarrow> string"
  LoginViaCellphone :: "int \<Rightarrow> string \<Rightarrow> string \<Rightarrow> string \<Rightarrow> 'ses \<Rightarrow> py_error + 'ses"
  LoginViaEmail :: "string \<Rightarrow> string \<Rightarrow> string \<Rightarrow> 'ses \<Rightarrow> py_error + 'ses"
  LoginViaAnonymousAccount :: "'ses \<Rightarrow> py_error + 'ses"
  GetCurrentLoginStatus :: "nat \<Rightarrow> 'ses \<Rightarrow> py_error + pydict"

text \<open>The lines \<^verbatim>\<open>login\<close> writes to the logger, in the order of the source.\<close>

datatype log_line =
    UsingCachedSession
  | LoginByPhone
  | LoginByEmail
  | GuestLogin
  | RetryAfterCachedSession
  | LoginSucceeded

text \<open>
  What \<^verbatim>\<open>login\<close> reads and changes: the contents of \<^verbatim>\<open>SESSION_FILE\<close> (\<open>None\<close> when the file
  does not exist), the current session of the client library, the number of status
  calls made so far and the log.
\<close>

record 'ses world =
  session_file :: "string option"
  current_session :: 'ses
  status_calls :: nat
  logged :: "log_line list"

definition filled :: "string option \<Rightarrow> bool" where
  "filled s = (case s of None \<Rightarrow> False | Some v \<Rightarrow> v \<noteq> [])"

definition or_empty :: "string option \<Rightarrow> string" where
  "or_empty s = (case s of None \<Rightarrow> [] | Some v \<Rightarrow> v)"

definition write_log :: "log_line \<Rightarrow> 'ses world \<Rightarrow> 'ses world" where
  "write_log l w = w\<lparr>logged := logged w @ [l]\<rparr>"

text \<open>
  The first statement of \<^verbatim>\<open>login\<close>, the \<^verbatim>\<open>if/elif/else\<close> over the three ways to a session.
  It returns the value of the variable \<^verbatim>\<open>retry\<close> after it: unchanged on the path of the
  session file, \<^verbatim>\<open>False\<close> on the other two. An exception of the client library ends
  \<^verbatim>\<open>login\<close>.
\<close>

definition login_paths :: "'ses pyncm \<Rightarrow> config \<Rightarrow> bool \<Rightarrow> 'ses world
    \<Rightarrow> (py_error + bool) \<times> 'ses world" where
  "login_paths P cfg retry w =
     (case session_file w of
        Some blob \<Rightarrow>
          (let w1 = write_log UsingCachedSession w
           in case LoadSessionFromString P blob of
                Inl e \<Rightarrow> (Inl e, w1)
              | Inr s \<Rightarrow> (Inr retry, w1\<lparr>current_session := s\<rparr>))
      | None \<Rightarrow>
          if (filled (ncm_phone cfg) \<or> filled (ncm_email cfg))
             \<and> (filled (ncm_password cfg) \<or> filled (ncm_password_hash cfg))
          then
            (let w1 = write_log (if filled (ncm_phone cfg) then LoginByPhone else LoginByEmail) w;
                 r = (if filled (ncm_phone cfg)
                      then LoginViaCellphone P (ncm_ctcode cfg) (or_empty (ncm_phone cfg))
                             (or_empty (ncm_password cfg)) (or_empty (ncm_password_hash cfg))
                             (current_session w1)
                      else LoginViaEmail P (or_empty (ncm_email cfg))
                             (or_empty (ncm_password cfg)) (or_empty (ncm_password_hash cfg))
                             (current_session w1))
             in case r of
                  Inl e \<Rightarrow> (Inl e, w1)
                | Inr s \<Rightarrow>
                    (Inr False,
                     w1\<lparr>current_session := s, session_file := Some (DumpSessionAsString P s)\<rparr>))
          else
            (let w1 = write_log GuestLogin w
             in case LoginViaAnonymousAccount P (current_session w1) of
                  Inl e \<Rightarrow> (Inl e, w1)
                | Inr s \<Rightarrow> (Inr False, w1\<lparr>current_session := s\<rparr>)))"

text \<open>
  The \<^verbatim>\<open>try\<close> block: the status call and the two assertions. Every exception in it is
  caught, so the block either passes or fails: it fails when the call raises, when
  \<^verbatim>\<open>"code"\<close> or \<^verbatim>\<open>"account"\<close> is missing, when the code is not 200 and when the account is
  false.
\<close>

definition status_ok :: "py_error + pydict \<Rightarrow> bool" where
  "status_ok r =
     (case r of
        Inl e \<Rightarrow> False
      | Inr ret \<Rightarrow>
          (case map_of ret ''code'' of
             None \<Rightarrow> False
           | Some c \<Rightarrow>
               eq_int c 200 \<and> (case map_of ret ''account'' of None \<Rightarrow> False | Some a \<Rightarrow> truthy a)))"

definition check_status :: "'ses pyncm \<Rightarrow> 'ses world \<Rightarrow> bool \<times> 'ses world" where
  "check_status P w =
     (status_ok (GetCurrentLoginStatus P (status_calls w) (current_session w)),
      w\<lparr>status_calls := Suc (status_calls w)\<rparr>)"

text \<open>\<^verbatim>\<open>if await pth.exists(): await pth.unlink()\<close>.\<close>

definition unlink_session_file :: "'ses world \<Rightarrow> 'ses world" where
  "unlink_session_file w = (if session_file w \<noteq> None then w\<lparr>session_file := None\<rparr> else w)"

text \<open>
  \<^verbatim>\<open>login(retry)\<close>: the result is the exception that left it, if any, and the world after
  it. It calls itself with \<^verbatim>\<open>retry=False\<close> from the handler.
\<close>

function login :: "'ses pyncm \<Rightarrow> config \<Rightarrow> bool \<Rightarrow> 'ses world \<Rightarrow> (py_error + unit) \<times> 'ses world" where
  "login P cfg retry w =
     (case login_paths P cfg retry w of
        (Inl e, w1) \<Rightarrow> (Inl e, w1)
      | (Inr retry', w1) \<Rightarrow>
          (case check_status P w1 of
             (True, w2) \<Rightarrow> (Inr (), write_log LoginSucceeded w2)
           | (False, w2) \<Rightarrow>
               (let w3 = unlink_session_file w2
                in if retry'
                   then login P cfg False (write_log RetryAfterCachedSession w3)
                   else (Inl (RuntimeError LoginStateInvalid), w3))))"
  by pat_completeness auto

termination login
  by (relation "measure (\<lambda>(P, cfg, retry, w). if retry then 1 else 0)")
     (auto simp: login_paths_def Let_def split: option.splits sum.splits if_splits)

declare login.simps [simp del]

section \<open>Sample parameters\<close>

text \<open>
  A plain instance of the parameters, for running the model: a privilege is its keyword
  arguments and needs an integer \<^verbatim>\<open>id\<close>, a song is its keyword arguments with its
  privilege and is never false; an API function that answers every call alike; a client
  library whose sessions are strings, a session being logged in when it is in the list
  \<open>valid\<close>; and a configuration without an account.
\<close>

definition plain_types :: "(pydict, pydict \<times> pydict) types" where
  "plain_types =
     \<lparr>Privilege = (\<lambda>kw. case map_of kw ''id'' of
                          Some (PInt i) \<Rightarrow> Inr kw
                        | _ \<Rightarrow> Inl (ValueError ''id'')),
      Privilege_id = (\<lambda>p. case map_of p ''id'' of Some (PInt i) \<Rightarrow> i | _ \<Rightarrow> 0),
      SongModel = (\<lambda>kw p. Inr (kw, p)),
      SongModel_bool = (\<lambda>s. True),
      SongSearchResult = (\<lambda>kw. Inr \<lparr>songs = None, songCount = 0\<rparr>)\<rparr>"

definition answering :: "string \<Rightarrow> pydict \<Rightarrow> 'a api" where
  "answering name ret = \<lparr>api_name = name, api_call = (\<lambda>args. Inr ret)\<rparr>"

definition plain_pyncm :: "string list \<Rightarrow> string pyncm" where
  "plain_pyncm valid =
     \<lparr>LoadSessionFromString = Inr,
      DumpSessionAsString = id,
      LoginViaCellphone = (\<lambda>ctcode phone password passwordHash s. Inr (''phone '' @ phone)),
      LoginViaEmail = (\<lambda>email password passwordHash s. Inr (''email '' @ email)),
      LoginViaAnonymousAccount = (\<lambda>s. Inr ''guest''),
      GetCurrentLoginStatus = (\<lambda>n s. Inr [(''code'', PInt 200),
         (''account'', if s \<in> set valid then PDict [(''userName'', PStr s)] else PNone)])\<rparr>"

definition no_account :: config where
  "no_account =
     \<lparr>ncm_list_limit = 20, ncm_max_name_len = 600, ncm_max_artist_len = 400, ncm_ctcode = 86,
      ncm_phone = None, ncm_email = None, ncm_password = None, ncm_password_hash = None\<rparr>"

section \<open>Properties of the cache\<close>

subsection \<open>The dictionary primitives\<close>

lemma map_of_dict_setitem: "map_of (dict_setitem k e d) = (map_of d)(k \<mapsto> e)"
  by (induction d) (auto simp: fun_eq_iff)

lemma keys_dict_setitem: "fst ` set (dict_setitem k e d) = insert k (fst ` set d)"
  by (simp add: dom_map_of_conv_image_fst [symmetric] map_of_dict_setitem)

lemma wf_dict_setitem: "wf_dict d \<Longrightarrow> wf_dict (dict_setitem k e d)"
proof (induction d)
  case Nil
  then show ?case by (simp add: wf_dict_def)
next
  case (Cons p d)
  obtain k' e' where p: "p = (k', e')" by (cases p) auto
  from Cons.prems have fresh: "k' \<notin> fst ` set d" and wf: "wf_dict d"
    by (simp_all add: wf_dict_def p)
  show ?case
  proof (cases "k' = k")
    case True
    with Cons.prems show ?thesis by (simp add: wf_dict_def p)
  next
    case False
    with fresh have "k' \<notin> fst ` set (dict_setitem k e d)"
      by (simp add: keys_dict_setitem)
    with Cons.IH [OF wf] False show ?thesis by (simp add: wf_dict_def p)
  qed
qed

lemma map_of_absent: "k \<notin> fst ` set d \<Longrightarrow> map_of d k = None"
  by (simp add: map_of_eq_None_iff)

lemma map_of_dict_remove: "wf_dict d \<Longrightarrow> map_of (dict_remove k d) = (map_of d)(k := None)"
proof (induction d)
  case Nil
  then show ?case by simp
next
  case (Cons p d)
  obtain k' e' where p: "p = (k', e')" by (cases p) auto
  from Cons.prems have fresh: "k' \<notin> fst ` set d" and wf: "wf_dict d"
    by (simp_all add: wf_dict_def p)
  show ?case
  proof (cases "k' = k")
    case True
    with fresh have none: "map_of d k = None" by (simp add: map_of_absent)
    with True show ?thesis by (simp add: p fun_eq_iff)
  next
    case False
    with Cons.IH [OF wf] show ?thesis by (simp add: p fun_eq_iff)
  qed
qed

lemma keys_dict_remove: "wf_dict d \<Longrightarrow> fst ` set (dict_remove k d) = fst ` set d - {k}"
  by (auto simp add: dom_map_of_conv_image_fst [symmetric] map_of_dict_remove)

lemma wf_dict_remove: "wf_dict d \<Longrightarrow> wf_dict (dict_remove k d)"
proof (induction d)
  case Nil
  then show ?case by (simp add: wf_dict_def)
next
  case (Cons p d)
  obtain k' e' where p: "p = (k', e')" by (cases p) auto
  from Cons.prems have fresh: "k' \<notin> fst ` set d" and wf: "wf_dict d"
    by (simp_all add: wf_dict_def p)
  show ?case
  proof (cases "k' = k")
    case True
    with wf show ?thesis by (simp add: p)
  next
    case False
    from fresh have "k' \<notin> fst ` set (dict_remove k d)"
      by (simp add: keys_dict_remove [OF wf])
    with Cons.IH [OF wf] False show ?thesis by (simp add: wf_dict_def p)
  qed
qed

lemma map_of_present: "(k, it) \<in> set d \<Longrightarrow> map_of d k \<noteq> None"
  by (simp add: map_of_eq_None_iff image_iff) force

subsection \<open>The expiry sweep\<close>

text \<open>
  The loop of \<^verbatim>\<open>clear_expired\<close> never raises when every key it visits is still in the
  cache, and what it leaves is read off the visited items one key at a time.
\<close>

lemma sweep_spec:
  fixes now_t :: "'t::{minus,ord}"
  assumes "wf_dict rest" and "wf_dict d" and "\<And>k it. (k, it) \<in> set rest \<Longrightarrow> map_of d k \<noteq> None"
  shows "\<exists>d'. sweep now_t thr rest d = Inr d' \<and> wf_dict d' \<and>
           (\<forall>k. map_of d' k =
              (case map_of rest k of
                 None \<Rightarrow> map_of d k
               | Some it \<Rightarrow> if now_t - fst it \<ge> thr then None else map_of d k))"
  using assms
proof (induction rest arbitrary: d)
  case Nil
  then show ?case by simp
next
  case (Cons p rest)
  obtain k create_t v where p: "p = (k, (create_t, v))" by (cases p) auto
  from Cons.prems(1) have wf_rest: "wf_dict rest" and fresh: "k \<notin> fst ` set rest"
    by (auto simp: wf_dict_def p)
  from fresh have none: "map_of rest k = None" by (rule map_of_absent)
  show ?case
  proof (cases "now_t - create_t \<ge> thr")
    case True
    have present: "map_of d k \<noteq> None" using Cons.prems(3) [of k "(create_t, v)"] by (simp add: p)
    let ?d1 = "dict_remove k d"
    have del: "dict_delitem k d = Inr ?d1" using present by (simp add: dict_delitem_def)
    have wf1: "wf_dict ?d1" using Cons.prems(2) by (rule wf_dict_remove)
    have m1: "map_of ?d1 = (map_of d)(k := None)" using Cons.prems(2) by (rule map_of_dict_remove)
    have pres1: "map_of ?d1 k' \<noteq> None" if "(k', it) \<in> set rest" for k' it
    proof -
      from that fresh have "k' \<noteq> k" by force
      moreover have "map_of d k' \<noteq> None" using Cons.prems(3) [of k' it] that by simp
      ultimately show ?thesis by (simp add: m1)
    qed
    have "\<exists>d'. sweep now_t thr rest ?d1 = Inr d' \<and> wf_dict d' \<and>
           (\<forall>x. map_of d' x = (case map_of rest x of None \<Rightarrow> map_of ?d1 x
            | Some it \<Rightarrow> if now_t - fst it \<ge> thr then None else map_of ?d1 x))"
      by (rule Cons.IH [OF wf_rest wf1]) (rule pres1)
    then obtain d' where
      d': "sweep now_t thr rest ?d1 = Inr d'" "wf_dict d'"
        "\<And>x. map_of d' x = (case map_of rest x of None \<Rightarrow> map_of ?d1 x
            | Some it \<Rightarrow> if now_t - fst it \<ge> thr then None else map_of ?d1 x)"
      by blast
    have "sweep now_t thr (p # rest) d = Inr d'" using True del d'(1) by (simp add: p)
    moreover have "map_of d' x = (case map_of (p # rest) x of None \<Rightarrow> map_of d x
            | Some it \<Rightarrow> if now_t - fst it \<ge> thr then None else map_of d x)" for x
      using d'(3) [of x] True none by (auto simp: p m1 split: option.splits)
    ultimately show ?thesis using d'(2) by blast
  next
    case False
    have pres: "map_of d k' \<noteq> None" if "(k', it) \<in> set rest" for k' it
      using Cons.prems(3) [of k' it] that by simp
    have "\<exists>d'. sweep now_t thr rest d = Inr d' \<and> wf_dict d' \<and>
           (\<forall>x. map_of d' x = (case map_of rest x of None \<Rightarrow> map_of d x
            | Some it \<Rightarrow> if now_t - fst it \<ge> thr then None else map_of d x))"
      by (rule Cons.IH [OF wf_rest Cons.prems(2)]) (rule pres)
    then obtain d' where
      d': "sweep now_t thr rest d = Inr d'" "wf_dict d'"
        "\<And>x. map_of d' x = (case map_of rest x of None \<Rightarrow> map_of d x
            | Some it \<Rightarrow> if now_t - fst it \<ge> thr then None else map_of d x)"
      by blast
    have "sweep now_t thr (p # rest) d = Inr d'" using False d'(1) by (simp add: p)
    moreover have "map_of d' x = (case map_of (p # rest) x of None \<Rightarrow> map_of d x
            | Some it \<Rightarrow> if now_t - fst it \<ge> thr then None else map_of d x)" for x
      using d'(3) [of x] False none by (auto simp: p split: option.splits)
    ultimately show ?thesis using d'(2) by blast
  qed
qed

lemma clear_expired_spec:
  fixes now_t :: "'t::{minus,ord}"
  assumes "wf_dict d"
  shows "\<exists>d'. CacheManager_clear_expired now_t thr d = Inr d' \<and> wf_dict d' \<and>
           (\<forall>k. map_of d' k =
              (case map_of d k of
                 None \<Rightarrow> None
               | Some it \<Rightarrow> if now_t - fst it \<ge> thr then None else Some it))"
proof -
  have "map_of d k \<noteq> None" if "(k, it) \<in> set d" for k it
    using that by (rule map_of_present)
  then have "\<exists>d'. sweep now_t thr d d = Inr d' \<and> wf_dict d' \<and>
           (\<forall>k. map_of d' k =
              (case map_of d k of
                 None \<Rightarrow> map_of d k
               | Some it \<Rightarrow> if now_t - fst it \<ge> thr then None else map_of d k))"
    by (rule sweep_spec [OF assms assms])
  then obtain d' where d': "sweep now_t thr d d = Inr d'" "wf_dict d'"
     "\<And>k. map_of d' k = (case map_of d k of None \<Rightarrow> map_of d k
               | Some it \<Rightarrow> if now_t - fst it \<ge> thr then None else map_of d k)"
    by blast
  have "map_of d' k = (case map_of d k of None \<Rightarrow> None
               | Some it \<Rightarrow> if now_t - fst it \<ge> thr then None else Some it)" for k
    using d'(3) [of k] by (simp split: option.splits)
  with d'(1,2) show ?thesis
    unfolding CacheManager_clear_expired_def dict_copy_def by blast
qed


text \<open>
  Claim C3. On a cache \<open>d\<close> (a dictionary, every key once), \<^verbatim>\<open>clear_expired\<close> returns
  without raising; an entry of \<open>d\<close> with insertion time \<open>create_t\<close> is absent afterwards
  if and only if its age \<open>now_t - create_t\<close> is at least the threshold, an entry whose age
  is below the threshold is still there with its time and its value, and no key appears.
\<close>

theorem clear_expired_removes_iff_expired:
  fixes now_t :: "'t::{minus,linorder}"
  assumes "wf_dict d"
  shows "\<exists>d'. CacheManager_clear_expired now_t ncm_msg_cache_time d = Inr d' \<and> wf_dict d' \<and>
           (\<forall>k create_t v. map_of d k = Some (create_t, v) \<longrightarrow>
              (map_of d' k = None \<longleftrightarrow> now_t - create_t \<ge> ncm_msg_cache_time) \<and>
              (now_t - create_t < ncm_msg_cache_time \<longrightarrow> map_of d' k = Some (create_t, v))) \<and>
           (\<forall>k. map_of d k = None \<longrightarrow> map_of d' k = None)"
proof -
  from clear_expired_spec [OF assms, of now_t ncm_msg_cache_time] obtain d' where
    run: "CacheManager_clear_expired now_t ncm_msg_cache_time d = Inr d'" and wf: "wf_dict d'" and
    look: "\<And>k. map_of d' k = (case map_of d k of None \<Rightarrow> None
             | Some it \<Rightarrow> if now_t - fst it \<ge> ncm_msg_cache_time then None else Some it)"
    by blast
  have "(map_of d' k = None \<longleftrightarrow> now_t - create_t \<ge> ncm_msg_cache_time) \<and>
        (now_t - create_t < ncm_msg_cache_time \<longrightarrow> map_of d' k = Some (create_t, v))"
    if "map_of d k = Some (create_t, v)" for k create_t v
    using look [of k] that by auto
  moreover have "map_of d' k = None" if "map_of d k = None" for k
    using look [of k] that by simp
  ultimately show ?thesis using run wf by blast
qed

text \<open>At time 160 with threshold 60, the entry written at 100 goes and the one written at 130 stays.\<close>

theorem clear_expired_removes_iff_expired_witness:
  "wf_dict [(1::int, (100::real, ''a'')), (2, (130, ''b''))] \<and>
   (\<exists>d'. CacheManager_clear_expired 160 60 [(1::int, (100::real, ''a'')), (2, (130, ''b''))] = Inr d' \<and>
      map_of d' 1 = None \<and> map_of d' 2 = Some (130, ''b''))"
proof -
  let ?d = "[(1::int, (100::real, ''a'')), (2, (130, ''b''))]"
  have wf: "wf_dict ?d" by (simp add: wf_dict_def)
  from clear_expired_removes_iff_expired [OF wf, of 160 60] obtain d' where
    run: "CacheManager_clear_expired 160 60 ?d = Inr d'" and
    old: "\<And>k create_t v. map_of ?d k = Some (create_t, v) \<Longrightarrow>
              (map_of d' k = None \<longleftrightarrow> 160 - create_t \<ge> 60) \<and>
              (160 - create_t < 60 \<longrightarrow> map_of d' k = Some (create_t, v))"
    by blast
  have "map_of d' 1 = None" using old [of 1 100 "''a''"] by simp
  moreover have "map_of d' 2 = Some (130, ''b'')" using old [of 2 130 "''b''"] by simp
  ultimately show ?thesis using wf run by blast
qed

text \<open>
  Claim C4. After \<^verbatim>\<open>set(k, v1)\<close> at time \<open>t1\<close> and \<^verbatim>\<open>set(k, v2)\<close> at time \<open>t2\<close> the
  entry of \<open>k\<close> is \<open>(t2, v2)\<close>: the value and the time stamp are both those of the second
  write. A sweep at any later time judges the entry by \<open>t2\<close> alone: it removes it if and
  only if \<open>now_t - t2\<close> is at least the threshold, whatever \<open>t1\<close> was.
\<close>

theorem set_overwrite_resets_age:
  fixes now_t :: "'t::{minus,linorder}"
  assumes "wf_dict d"
  shows "map_of (CacheManager_set t2 k v2 (CacheManager_set t1 k v1 d)) k = Some (t2, v2) \<and>
         CacheManager_get (CacheManager_set t2 k v2 (CacheManager_set t1 k v1 d)) k dflt = v2 \<and>
         (\<exists>d'. CacheManager_clear_expired now_t ncm_msg_cache_time
                 (CacheManager_set t2 k v2 (CacheManager_set t1 k v1 d)) = Inr d' \<and>
               (map_of d' k = None \<longleftrightarrow> now_t - t2 \<ge> ncm_msg_cache_time) \<and>
               (now_t - t2 < ncm_msg_cache_time \<longrightarrow> map_of d' k = Some (t2, v2)))"
proof -
  let ?d2 = "CacheManager_set t2 k v2 (CacheManager_set t1 k v1 d)"
  have look: "map_of ?d2 k = Some (t2, v2)"
    by (simp add: CacheManager_set_def CacheManager_setitem_def map_of_dict_setitem)
  have wf: "wf_dict ?d2"
    using assms by (simp add: CacheManager_set_def CacheManager_setitem_def wf_dict_setitem)
  from clear_expired_spec [OF wf, of now_t ncm_msg_cache_time] obtain d' where
    run: "CacheManager_clear_expired now_t ncm_msg_cache_time ?d2 = Inr d'" and
    after: "\<And>x. map_of d' x = (case map_of ?d2 x of None \<Rightarrow> None
             | Some it \<Rightarrow> if now_t - fst it \<ge> ncm_msg_cache_time then None else Some it)"
    by blast
  have "(map_of d' k = None \<longleftrightarrow> now_t - t2 \<ge> ncm_msg_cache_time) \<and>
        (now_t - t2 < ncm_msg_cache_time \<longrightarrow> map_of d' k = Some (t2, v2))"
    using after [of k] look by auto
  with run look show ?thesis by (auto simp: CacheManager_get_def)
qed

text \<open>
  Written at 0 and again at 50, swept at 70 with threshold 60: by the first write the
  entry would be expired, by the second it is not, and it stays.
\<close>

theorem set_overwrite_resets_age_witness:
  "wf_dict ([] :: (string \<times> real \<times> string) list) \<and>
   map_of (CacheManager_set 50 ''chat'' ''second'' (CacheManager_set (0::real) ''chat'' ''first'' [])) ''chat''
     = Some (50, ''second'') \<and>
   (\<exists>d'. CacheManager_clear_expired 70 60
       (CacheManager_set 50 ''chat'' ''second'' (CacheManager_set (0::real) ''chat'' ''first'' [])) = Inr d' \<and>
      map_of d' ''chat'' = Some (50, ''second''))"
proof -
  have wf: "wf_dict ([] :: (string \<times> real \<times> string) list)" by (simp add: wf_dict_def)
  from set_overwrite_resets_age [OF wf, of 50 "''chat''" "''second''" 0 "''first''" _ 70 60]
  show ?thesis using wf by auto
qed

text \<open>
  Claim C6. \<^verbatim>\<open>set(k, v)\<close> followed by \<^verbatim>\<open>get(k)\<close> gives \<open>v\<close>, without the time stamp, and
  so does \<^verbatim>\<open>pop(k)\<close>; \<^verbatim>\<open>pop(k)\<close> returns the value stored under \<open>k\<close> and leaves a cache
  without \<open>k\<close> (the other keys untouched), so that a later \<^verbatim>\<open>get(k, d)\<close> gives \<open>d\<close>; on an
  absent key \<^verbatim>\<open>pop\<close> and \<^verbatim>\<open>get\<close> give the default and change nothing.
\<close>

theorem set_get_pop:
  assumes "wf_dict d"
  shows "CacheManager_get (CacheManager_set now k v d) k dflt = v \<and>
         fst (CacheManager_pop (CacheManager_set now k v d) k dflt) = v \<and>
         (\<forall>t w. map_of d k = Some (t, w) \<longrightarrow> fst (CacheManager_pop d k dflt) = w) \<and>
         map_of (snd (CacheManager_pop d k dflt)) k = None \<and>
         CacheManager_get (snd (CacheManager_pop d k dflt)) k dflt' = dflt' \<and>
         (\<forall>k'. k' \<noteq> k \<longrightarrow> map_of (snd (CacheManager_pop d k dflt)) k' = map_of d k') \<and>
         (map_of d k = None \<longrightarrow>
            CacheManager_pop d k dflt = (dflt, d) \<and> CacheManager_get d k dflt = dflt)"
proof -
  have look: "map_of (CacheManager_set now k v d) k = Some (now, v)"
    by (simp add: CacheManager_set_def CacheManager_setitem_def map_of_dict_setitem)
  have 1: "CacheManager_get (CacheManager_set now k v d) k dflt = v"
    by (simp add: CacheManager_get_def look)
  have 2: "fst (CacheManager_pop (CacheManager_set now k v d) k dflt) = v"
    by (simp add: CacheManager_pop_def look)
  have 3: "fst (CacheManager_pop d k dflt) = w" if "map_of d k = Some (t, w)" for t w
    using that by (simp add: CacheManager_pop_def)
  have after: "map_of (snd (CacheManager_pop d k dflt)) = (map_of d)(k := None)"
    using map_of_dict_remove [OF assms, of k]
    by (auto simp: CacheManager_pop_def fun_eq_iff split: option.splits)
  have 4: "map_of (snd (CacheManager_pop d k dflt)) k = None"
    by (simp add: after)
  have 5: "CacheManager_get (snd (CacheManager_pop d k dflt)) k dflt' = dflt'"
    by (simp add: CacheManager_get_def 4)
  have 6: "map_of (snd (CacheManager_pop d k dflt)) k' = map_of d k'" if "k' \<noteq> k" for k'
    using that by (simp add: after)
  have 7: "CacheManager_pop d k dflt = (dflt, d) \<and> CacheManager_get d k dflt = dflt"
    if "map_of d k = None"
    using that by (simp add: CacheManager_pop_def CacheManager_get_def)
  from 1 2 3 4 5 6 7 show ?thesis by blast
qed

theorem set_get_pop_witness:
  "wf_dict [(7::int, (1::real, ''old''))] \<and>
   CacheManager_get (CacheManager_set 2 8 ''new'' [(7::int, (1::real, ''old''))]) 8 ''none'' = ''new'' \<and>
   fst (CacheManager_pop [(7::int, (1::real, ''old''))] 7 ''none'') = ''old'' \<and>
   CacheManager_get (snd (CacheManager_pop [(7::int, (1::real, ''old''))] 7 ''none'')) 7 ''gone'' = ''gone'' \<and>
   CacheManager_pop [(7::int, (1::real, ''old''))] 9 ''none'' = (''none'', [(7, (1, ''old''))]) \<and>
   CacheManager_get [(7::int, (1::real, ''old''))] 9 ''none'' = ''none''"
proof -
  let ?d = "[(7::int, (1::real, ''old''))]"
  have wf: "wf_dict ?d" by (simp add: wf_dict_def)
  have a: "CacheManager_get (CacheManager_set 2 8 ''new'' ?d) 8 ''none'' = ''new''"
    using set_get_pop [OF wf, of 2 8 "''new''" "''none''" _] by blast
  have b: "fst (CacheManager_pop ?d 7 ''none'') = ''old'' \<and>
           CacheManager_get (snd (CacheManager_pop ?d 7 ''none'')) 7 ''gone'' = ''gone''"
    using set_get_pop [OF wf, of _ 7 _ "''none''" "''gone''"] by simp
  have c: "CacheManager_pop ?d 9 ''none'' = (''none'', ?d) \<and> CacheManager_get ?d 9 ''none'' = ''none''"
    using set_get_pop [OF wf, of _ 9 _ "''none''" _] by simp
  from wf a b c show ?thesis by blast
qed

section \<open>Properties of the requests\<close>

text \<open>
  Claim C7. When the API function returns an answer \<open>ret\<close> that holds a \<^verbatim>\<open>"code"\<close> other
  than 200, \<^verbatim>\<open>ncm_request\<close> raises the \<^verbatim>\<open>RuntimeError\<close> that carries the name of the API
  function and \<open>ret\<close> itself. When the answer holds no code other than 200,
  \<^verbatim>\<open>ncm_request\<close> returns \<open>ret\<close> as it is. When the API function raises, \<^verbatim>\<open>ncm_request\<close>
  raises the same exception. So no failure is turned into a result.
\<close>

theorem ncm_request_raises_on_failure_code:
  "(\<forall>ret c. api_call api args = Inr ret \<and> map_of ret ''code'' = Some c \<and> \<not> eq_int c 200 \<longrightarrow>
      ncm_request api args = Inl (RuntimeError (RequestFailed (api_name api) ret))) \<and>
   (\<forall>ret. api_call api args = Inr ret \<and> (\<forall>c. map_of ret ''code'' = Some c \<longrightarrow> eq_int c 200) \<longrightarrow>
      ncm_request api args = Inr ret) \<and>
   (\<forall>e. api_call api args = Inl e \<longrightarrow> ncm_request api args = Inl e)"
proof (intro conjI allI impI)
  fix ret c
  assume "api_call api args = Inr ret \<and> map_of ret ''code'' = Some c \<and> \<not> eq_int c 200"
  then show "ncm_request api args = Inl (RuntimeError (RequestFailed (api_name api) ret))"
    by (simp add: ncm_request_def dict_get_def)
next
  fix ret
  assume "api_call api args = Inr ret \<and> (\<forall>c. map_of ret ''code'' = Some c \<longrightarrow> eq_int c 200)"
  then show "ncm_request api args = Inr ret"
    by (cases "map_of ret ''code''") (simp_all add: ncm_request_def dict_get_def eq_int_def)
next
  fix e
  assume "api_call api args = Inl e"
  then show "ncm_request api args = Inl e"
    by (simp add: ncm_request_def)
qed

text \<open>
  An answer with code 301 raises with the name \<^verbatim>\<open>GetTrackLyrics\<close> and the answer; an
  answer with code 200 is returned.
\<close>

theorem ncm_request_raises_on_failure_code_witness:
  "api_call (answering ''GetTrackLyrics'' [(''code'', PInt 301), (''msg'', PStr ''login'')]) (5::int)
     = Inr [(''code'', PInt 301), (''msg'', PStr ''login'')] \<and>
   ncm_request (answering ''GetTrackLyrics'' [(''code'', PInt 301), (''msg'', PStr ''login'')]) (5::int)
     = Inl (RuntimeError (RequestFailed ''GetTrackLyrics'' [(''code'', PInt 301), (''msg'', PStr ''login'')])) \<and>
   api_call (answering ''GetTrackLyrics'' [(''code'', PInt 200), (''lrc'', PNone)]) (5::int)
     = Inr [(''code'', PInt 200), (''lrc'', PNone)] \<and>
   ncm_request (answering ''GetTrackLyrics'' [(''code'', PInt 200), (''lrc'', PNone)]) (5::int)
     = Inr [(''code'', PInt 200), (''lrc'', PNone)]"
proof -
  let ?bad = "[(''code'', PInt 301), (''msg'', PStr ''login'')]"
  let ?good = "[(''code'', PInt 200), (''lrc'', PNone)]"
  let ?A = "\<lambda>r. answering ''GetTrackLyrics'' r :: int api"
  have b: "api_call (?A ?bad) 5 = Inr ?bad" by (simp add: answering_def)
  have g: "api_call (?A ?good) 5 = Inr ?good" by (simp add: answering_def)
  have name: "api_name (?A ?bad) = ''GetTrackLyrics''" by (simp add: answering_def)
  have "api_call (?A ?bad) 5 = Inr ?bad \<and> map_of ?bad ''code'' = Some (PInt 301) \<and>
        \<not> eq_int (PInt 301) 200"
    using b by (simp add: eq_int_def)
  with ncm_request_raises_on_failure_code [of "?A ?bad" 5]
  have "ncm_request (?A ?bad) 5 = Inl (RuntimeError (RequestFailed (api_name (?A ?bad)) ?bad))"
    by blast
  then have bad: "ncm_request (?A ?bad) 5 = Inl (RuntimeError (RequestFailed ''GetTrackLyrics'' ?bad))"
    by (simp only: name)
  have "api_call (?A ?good) 5 = Inr ?good \<and> (\<forall>c. map_of ?good ''code'' = Some c \<longrightarrow> eq_int c 200)"
    using g by (simp add: eq_int_def)
  with ncm_request_raises_on_failure_code [of "?A ?good" 5]
  have good: "ncm_request (?A ?good) 5 = Inr ?good"
    by blast
  from b g bad good show ?thesis by simp
qed

text \<open>
  Claim C10. An answer without a \<^verbatim>\<open>"code"\<close> field is a success: \<^verbatim>\<open>ncm_request\<close> returns
  it and does not raise, because \<^verbatim>\<open>ret.get("code", 200)\<close> is then 200.
\<close>

theorem ncm_request_missing_code_is_success:
  assumes "api_call api args = Inr ret" and "map_of ret ''code'' = None"
  shows "ncm_request api args = Inr ret"
  using assms by (simp add: ncm_request_def dict_get_def eq_int_def)

text \<open>
  The answer \<^verbatim>\<open>{"data": {}}\<close> has no code and is returned.
\<close>

theorem ncm_request_missing_code_is_success_witness:
  "api_call \<lparr>api_name = ''SearchVoice'', api_call = (\<lambda>u::unit. Inr [(''data'', PDict [])])\<rparr> ()
     = Inr [(''data'', PDict [])] \<and>
   map_of [(''data'', PDict [])] ''code'' = None \<and>
   ncm_request \<lparr>api_name = ''SearchVoice'', api_call = (\<lambda>u::unit. Inr [(''data'', PDict [])])\<rparr> ()
     = Inr [(''data'', PDict [])]"
proof -
  let ?A = "\<lparr>api_name = ''SearchVoice'', api_call = (\<lambda>u::unit. Inr [(''data'', PDict [])])\<rparr>"
  have c: "api_call ?A () = Inr [(''data'', PDict [])]" by simp
  have n: "map_of [(''data'', PDict [])] ''code'' = None" by simp
  from ncm_request_missing_code_is_success [OF c n] c n show ?thesis by simp
qed

text \<open>
  Claim C8. For a page number \<open>p\<close> of at least 1 and a page size \<open>s\<close> the offset is
  \<open>s * (p - 1)\<close>, and 0 for page 1; it is the offset, next to the limit \<open>s\<close>, in the
  arguments of the song search and in the payload of the voice search, \<open>s\<close> being
  \<^verbatim>\<open>config.ncm_list_limit\<close>.
\<close>

theorem offset_of_page:
  assumes "1 \<le> p"
  shows "get_offset_by_page_num p s = s * (p - 1) \<and>
         get_offset_by_page_num 1 s = 0 \<and>
         offset (search_song_args cfg kw p) = ncm_list_limit cfg * (p - 1) \<and>
         limit (search_song_args cfg kw p) = ncm_list_limit cfg \<and>
         voice_offset (search_voice_payload cfg kw p) = ncm_list_limit cfg * (p - 1) \<and>
         voice_limit (search_voice_payload cfg kw p) = ncm_list_limit cfg"
  using assms
  by (simp add: get_offset_by_page_num_def search_song_args_def search_voice_payload_def Let_def)

text \<open>
  With 20 results a page, page 3 starts at offset 40 and page 1 at offset 0.
\<close>

theorem offset_of_page_witness:
  "(1::int) \<le> 3 \<and> get_offset_by_page_num 3 20 = 40 \<and> get_offset_by_page_num 1 20 = 0"
  using offset_of_page [of 3 20] by simp

section \<open>Properties of the result table\<close>

lemma length_enumerate_from: "length (enumerate_from start xs) = length xs"
  by (induction xs arbitrary: start) simp_all

lemma nth_enumerate_from:
  "j < length xs \<Longrightarrow> enumerate_from start xs ! j = (start + int j, xs ! j)"
proof (induction xs arbitrary: start j)
  case Nil
  then show ?case by simp
next
  case (Cons x xs)
  show ?case
  proof (cases j)
    case 0
    then show ?thesis by simp
  next
    case (Suc i)
    with Cons.prems have "i < length xs" by simp
    from Cons.IH [OF this, of "start + 1"] Suc show ?thesis by simp
  qed
qed

text \<open>
  Claim C5. For a result with at least one song and a page number of at least 1,
  \<^verbatim>\<open>_build_search_resp\<close> returns a table with one row per song, and the rank cell (the
  first cell) of row \<open>j\<close>, counted from 0, shows the number \<open>s * (page - 1) + 1 + j\<close>, where
  \<open>s\<close> is the page size: the first rank is \<open>s * (page - 1) + 1\<close> and the ranks go up by 1.
  The start of the numbering, \<open>calc_index_offset\<close>, is modelled from the spec.
\<close>

theorem rank_continues_across_pages:
  assumes "songs resp = Some ss" and "ss \<noteq> []" and "1 \<le> page"
  shows "\<exists>r. build_search_resp cfg C resp page = Inr r \<and>
           length (table_rows (resp_table r)) = length ss \<and>
           (\<forall>j. j < length ss \<longrightarrow>
              table_rows (resp_table r) ! j ! 0 =
                ''[b]'' @ str_int (ncm_list_limit cfg * (page - 1) + 1 + int j) @ ''[/b]'')"
proof -
  let ?rows = "map (search_row C) (enumerate_from (calc_index_offset cfg page) ss)"
  let ?r = "\<lparr>resp_table = \<lparr>table_heads = song_table_heads cfg, table_rows = ?rows\<rparr>,
             resp_calling = CALLING, resp_page = page, resp_total = songCount resp\<rparr>"
  have run: "build_search_resp cfg C resp page = Inr ?r"
    using assms(1,2) by (cases ss) (simp_all add: build_search_resp_def)
  have len: "length ?rows = length ss" by (simp add: length_enumerate_from)
  have cell: "?rows ! j ! 0 = ''[b]'' @ str_int (ncm_list_limit cfg * (page - 1) + 1 + int j) @ ''[/b]''"
    if "j < length ss" for j
    using that
    by (simp add: length_enumerate_from nth_enumerate_from search_row_def calc_index_offset_def
        get_offset_by_page_num_def)
  from run len cell show ?thesis by simp
qed

text \<open>
  With page size 20, the first two ranks on page 2 are 21 and 22.
\<close>

theorem rank_continues_across_pages_witness:
  "songs \<lparr>songs = Some [''a'', ''b''], songCount = 57\<rparr> = Some [''a'', ''b''] \<and>
   [''a'', ''b''] \<noteq> [] \<and> (1::int) \<le> 2 \<and>
   (\<exists>r. build_search_resp \<lparr>ncm_list_limit = 20, ncm_max_name_len = 600, ncm_max_artist_len = 400,
            ncm_ctcode = 86, ncm_phone = None, ncm_email = None, ncm_password = None,
            ncm_password_hash = None\<rparr>
          \<lparr>name_cell = id, artists_cell = id, time_cell = id, pop_cell = id\<rparr>
          \<lparr>songs = Some [''a'', ''b''], songCount = 57\<rparr> 2 = Inr r \<and>
        table_rows (resp_table r) ! 0 ! 0 = ''[b]21[/b]'' \<and>
        table_rows (resp_table r) ! 1 ! 0 = ''[b]22[/b]'')"
proof -
  let ?cfg = "\<lparr>ncm_list_limit = 20, ncm_max_name_len = 600, ncm_max_artist_len = 400,
            ncm_ctcode = 86, ncm_phone = None, ncm_email = None, ncm_password = None,
            ncm_password_hash = None\<rparr>"
  let ?C = "\<lparr>name_cell = id, artists_cell = id, time_cell = id, pop_cell = id\<rparr> :: string cells"
  let ?resp = "\<lparr>songs = Some [''a'', ''b''], songCount = 57\<rparr>"
  have a: "songs ?resp = Some [''a'', ''b'']" by simp
  have b: "[''a'', ''b''] \<noteq> []" by simp
  have c: "(1::int) \<le> 2" by simp
  have s21: "str_int 21 = ''21''" by code_simp
  have s22: "str_int 22 = ''22''" by code_simp
  from rank_continues_across_pages [OF a b c, of ?cfg ?C] obtain r where
    run: "build_search_resp ?cfg ?C ?resp 2 = Inr r" and
    cell: "\<And>j. j < length [''a'', ''b''] \<Longrightarrow>
        table_rows (resp_table r) ! j ! 0 =
          ''[b]'' @ str_int (ncm_list_limit ?cfg * (2 - 1) + 1 + int j) @ ''[/b]''"
    by blast
  have "table_rows (resp_table r) ! 0 ! 0 = ''[b]21[/b]''"
    using cell [of 0] by (simp add: s21)
  moreover have "table_rows (resp_table r) ! 1 ! 0 = ''[b]22[/b]''"
    using cell [of 1] by (simp add: s22)
  ultimately show ?thesis using run by simp
qed

section \<open>Properties of the track details and of the search by id\<close>

lemma comprehension_Inr:
  "comprehension f xs = Inr ys \<Longrightarrow>
     length ys = length xs \<and> (\<forall>j. j < length xs \<longrightarrow> f (xs ! j) = Inr (ys ! j))"
proof (induction xs arbitrary: ys)
  case Nil
  then show ?case by simp
next
  case (Cons x xs)
  from Cons.prems obtain y ys' where
    y: "f x = Inr y" and ys': "comprehension f xs = Inr ys'" and ys: "ys = y # ys'"
    by (auto split: sum.splits)
  from Cons.IH [OF ys'] have
    len: "length ys' = length xs" and nth: "\<And>j. j < length xs \<Longrightarrow> f (xs ! j) = Inr (ys' ! j)"
    by simp_all
  have "f ((x # xs) ! j) = Inr (ys ! j)" if "j < length (x # xs)" for j
    using that y nth [of "j - 1"] by (cases j) (simp_all add: ys)
  with len ys show ?case by simp
qed

lemma keys_fold_setitem:
  "fst ` set (fold (\<lambda>y d. dict_setitem (key y) y d) ys d) = fst ` set d \<union> key ` set ys"
  by (induction ys arbitrary: d) (auto simp: keys_dict_setitem)

lemma privileges_dict_absent:
  "i \<notin> Privilege_id T ` set ys \<Longrightarrow> map_of (privileges_dict T ys) i = None"
  by (rule map_of_absent) (simp add: privileges_dict_def keys_fold_setitem)

text \<open>
  Claim C9. Let the answer of the detail call hold the list \<open>xs\<close> of privilege records,
  parsed as \<open>ys\<close>, and the list \<open>zs\<close> of songs, and let \<^verbatim>\<open>get_track_info\<close> return \<open>result\<close>.
  Then \<open>result\<close> has one song object per element of \<open>zs\<close>, and when no record of \<open>ys\<close>
  has the id \<open>i\<close> of the song at place \<open>j\<close>, the song object at place \<open>j\<close> is built with the
  privilege \<^verbatim>\<open>Privilege(id=i, pl=128000)\<close>.
\<close>

theorem missing_privilege_gets_default:
  assumes answer: "api_call GetTrackDetail ids = Inr res"
    and privs: "map_of res ''privileges'' = Some (PList xs)"
    and parsed: "comprehension (\<lambda>x. case unpack x of Inl e \<Rightarrow> Inl e | Inr kw \<Rightarrow> Privilege T kw) xs = Inr ys"
    and tracks: "map_of res ''songs'' = Some (PList zs)"
    and result: "get_track_info T GetTrackDetail ids = Inr result"
    and song: "j < length zs" "zs ! j = PDict kw" "map_of kw ''id'' = Some (PInt i)"
    and absent: "i \<notin> Privilege_id T ` set ys"
  shows "length result = length zs \<and>
         (\<exists>p. Privilege T [(''id'', PInt i), (''pl'', PInt 128000)] = Inr p \<and>
              SongModel T kw p = Inr (result ! j))"
proof -
  from result answer have req: "ncm_request GetTrackDetail ids = Inr res"
    by (auto simp: get_track_info_def ncm_request_def split: sum.splits if_splits)
  from result have all: "comprehension (track_song T (privileges_dict T ys)) zs = Inr result"
    by (simp add: get_track_info_def req dict_getitem_def privs tracks parsed)
  from comprehension_Inr [OF all] song(1) have
    len: "length result = length zs" and
    one: "track_song T (privileges_dict T ys) (zs ! j) = Inr (result ! j)"
    by simp_all
  have none: "map_of (privileges_dict T ys) i = None"
    using absent by (rule privileges_dict_absent)
  from one obtain p where
    "Privilege T [(''id'', PInt i), (''pl'', PInt 128000)] = Inr p" "SongModel T kw p = Inr (result ! j)"
    by (auto simp: track_song_def unpack_def dict_getitem_def song none default_privilege_def
        split: sum.splits)
  with len show ?thesis by blast
qed

text \<open>
  Song 7 comes with a privilege record for song 8 only, and gets the privilege with
  \<^verbatim>\<open>pl\<close> 128000.
\<close>

theorem missing_privilege_gets_default_witness:
  "api_call (answering ''GetTrackDetail''
       [(''songs'', PList [PDict [(''id'', PInt 7), (''name'', PStr ''x'')]]),
        (''privileges'', PList [PDict [(''id'', PInt 8), (''pl'', PInt 320000)]]),
        (''code'', PInt 200)]) [7::int]
     = Inr [(''songs'', PList [PDict [(''id'', PInt 7), (''name'', PStr ''x'')]]),
            (''privileges'', PList [PDict [(''id'', PInt 8), (''pl'', PInt 320000)]]),
            (''code'', PInt 200)] \<and>
   get_track_info plain_types (answering ''GetTrackDetail''
       [(''songs'', PList [PDict [(''id'', PInt 7), (''name'', PStr ''x'')]]),
        (''privileges'', PList [PDict [(''id'', PInt 8), (''pl'', PInt 320000)]]),
        (''code'', PInt 200)]) [7]
     = Inr [([(''id'', PInt 7), (''name'', PStr ''x'')], [(''id'', PInt 7), (''pl'', PInt 128000)])] \<and>
   7 \<notin> Privilege_id plain_types ` set [[(''id'', PInt 8), (''pl'', PInt 320000)]] \<and>
   (\<exists>p. Privilege plain_types [(''id'', PInt 7), (''pl'', PInt 128000)] = Inr p \<and>
        SongModel plain_types [(''id'', PInt 7), (''name'', PStr ''x'')] p =
          Inr ([(''id'', PInt 7), (''name'', PStr ''x'')], [(''id'', PInt 7), (''pl'', PInt 128000)]))"
proof -
  let ?kw = "[(''id'', PInt 7), (''name'', PStr ''x'')]"
  let ?pk = "[(''id'', PInt 8), (''pl'', PInt 320000)]"
  let ?res = "[(''songs'', PList [PDict ?kw]), (''privileges'', PList [PDict ?pk]), (''code'', PInt 200)]"
  let ?api = "answering ''GetTrackDetail'' ?res :: int list api"
  let ?out = "[(?kw, [(''id'', PInt 7), (''pl'', PInt 128000)])]"
  have answer: "api_call ?api [7] = Inr ?res" by (simp add: answering_def)
  have privs: "map_of ?res ''privileges'' = Some (PList [PDict ?pk])" by simp
  have parsed: "comprehension (\<lambda>x. case unpack x of Inl e \<Rightarrow> Inl e | Inr kw \<Rightarrow> Privilege plain_types kw)
      [PDict ?pk] = Inr [?pk]"
    by (simp add: unpack_def plain_types_def)
  have tracks: "map_of ?res ''songs'' = Some (PList [PDict ?kw])" by simp
  have result: "get_track_info plain_types ?api [7] = Inr ?out"
    by (simp add: get_track_info_def ncm_request_def answering_def dict_get_def eq_int_def
        dict_getitem_def unpack_def plain_types_def privileges_dict_def track_song_def
        default_privilege_def)
  have absent: "7 \<notin> Privilege_id plain_types ` set [?pk]" by (simp add: plain_types_def)
  have "\<exists>p. Privilege plain_types [(''id'', PInt 7), (''pl'', PInt 128000)] = Inr p \<and>
        SongModel plain_types ?kw p = Inr (?out ! 0)"
    using missing_privilege_gets_default [OF answer privs parsed tracks result _ _ _ absent, of 0 ?kw]
    by simp
  with answer result absent show ?thesis by simp
qed

text \<open>
  \<^verbatim>\<open>search_by_id\<close> on an id the service has no entry for. The service then answers with
  code 200 and an empty list of songs; \<^verbatim>\<open>get_track_info\<close> returns the empty list, and
  element 0 of it raises \<^verbatim>\<open>IndexError\<close>, which is not a \<^verbatim>\<open>ValueError\<close> and leaves
  \<^verbatim>\<open>search_by_id\<close>. \<^verbatim>\<open>None\<close> is returned exactly when \<^verbatim>\<open>from_id\<close> raises a \<^verbatim>\<open>ValueError\<close>,
  and a failure code of the service leaves \<^verbatim>\<open>search_by_id\<close> as the \<^verbatim>\<open>RuntimeError\<close> of
  \<^verbatim>\<open>ncm_request\<close>.
\<close>

lemma get_track_info_no_song:
  assumes "api_call GetTrackDetail ids = Inr res"
    and "eq_int (dict_get res ''code'' (PInt 200)) 200"
    and "map_of res ''privileges'' = Some (PList [])"
    and "map_of res ''songs'' = Some (PList [])"
  shows "get_track_info T GetTrackDetail ids = Inr []"
  using assms by (simp add: get_track_info_def ncm_request_def dict_getitem_def)

lemma search_by_id_no_song:
  assumes "get_track_info T GetTrackDetail [arg_id] = Inr []"
  shows "search_by_id T GetTrackDetail arg_id = Inl IndexError"
  using assms by (simp add: search_by_id_def from_id_def item0_def)

lemma search_by_id_None_iff:
  "search_by_id T GetTrackDetail arg_id = Inr None \<longleftrightarrow>
     (\<exists>msg. from_id T GetTrackDetail arg_id = Inl (ValueError msg))"
  by (auto simp: search_by_id_def split: sum.splits py_error.splits)

lemma search_by_id_request_failed:
  assumes "api_call GetTrackDetail [arg_id] = Inr res"
    and "\<not> eq_int (dict_get res ''code'' (PInt 200)) 200"
  shows "search_by_id T GetTrackDetail arg_id =
           Inl (RuntimeError (RequestFailed (api_name GetTrackDetail) res))"
  using assms by (simp add: search_by_id_def from_id_def get_track_info_def ncm_request_def)

text \<open>
  Claim C1, at the answer \<^verbatim>\<open>{"songs": [], "privileges": [], "code": 200}\<close> for the id 1:
  \<^verbatim>\<open>search_by_id\<close> raises \<^verbatim>\<open>IndexError\<close>; the claim says it returns \<^verbatim>\<open>None\<close>.
\<close>

theorem search_by_id_unknown_id_raises:
  "search_by_id plain_types
     (answering ''GetTrackDetail'' [(''songs'', PList []), (''privileges'', PList []), (''code'', PInt 200)])
     1 = Inl IndexError"
  by (simp add: search_by_id_def from_id_def item0_def get_track_info_def ncm_request_def
      answering_def dict_get_def eq_int_def dict_getitem_def)

section \<open>Properties of the login\<close>

text \<open>
  What the first statement of \<^verbatim>\<open>login\<close> does to the variable \<^verbatim>\<open>retry\<close> and to the number of
  status calls, and the two ways out of the handler.
\<close>

lemma login_paths_retry:
  assumes "login_paths P cfg retry w = (Inr retry', w1)"
  shows "retry' = (retry \<and> session_file w \<noteq> None)"
  using assms
  by (auto simp: login_paths_def Let_def split: option.splits sum.splits if_splits)

lemma login_paths_status_calls:
  assumes "login_paths P cfg retry w = (r, w1)"
  shows "status_calls w1 = status_calls w"
  using assms
  by (auto simp: login_paths_def Let_def write_log_def split: option.splits sum.splits if_splits)

lemma session_file_unlink [simp]: "session_file (unlink_session_file w) = None"
  by (simp add: unlink_session_file_def)

lemma status_calls_unlink [simp]: "status_calls (unlink_session_file w) = status_calls w"
  by (simp add: unlink_session_file_def)

lemma status_calls_write_log [simp]: "status_calls (write_log l w) = status_calls w"
  by (simp add: write_log_def)

lemma session_file_write_log [simp]: "session_file (write_log l w) = session_file w"
  by (simp add: write_log_def)

lemma status_calls_check [simp]: "status_calls (snd (check_status P w)) = Suc (status_calls w)"
  by (simp add: check_status_def)

lemma fst_check_status:
  "fst (check_status P w) = status_ok (GetCurrentLoginStatus P (status_calls w) (current_session w))"
  by (simp add: check_status_def)

lemma login_failed_no_retry:
  assumes "login_paths P cfg retry w = (Inr False, w1)"
    and "\<not> status_ok (GetCurrentLoginStatus P (status_calls w1) (current_session w1))"
  shows "login P cfg retry w =
           (Inl (RuntimeError LoginStateInvalid), unlink_session_file (snd (check_status P w1)))"
  using assms by (simp add: login.simps [of P cfg retry w] check_status_def Let_def)

lemma login_failed_retry:
  assumes "login_paths P cfg retry w = (Inr True, w1)"
    and "\<not> status_ok (GetCurrentLoginStatus P (status_calls w1) (current_session w1))"
  shows "login P cfg retry w =
           login P cfg False
             (write_log RetryAfterCachedSession (unlink_session_file (snd (check_status P w1))))"
  using assms by (simp add: login.simps [of P cfg retry w] check_status_def Let_def)

lemma login_status_calls_no_retry:
  "status_calls (snd (login P cfg False w)) \<le> status_calls w + 1"
proof (cases "login_paths P cfg False w")
  case (Pair r w1)
  note calls = login_paths_status_calls [OF Pair]
  show ?thesis
  proof (cases r)
    case (Inl e)
    with Pair calls show ?thesis by (simp add: login.simps [of P cfg False w])
  next
    case (Inr r')
    with Pair have "r' = False" using login_paths_retry [of P cfg False w r' w1] by simp
    with Pair Inr calls show ?thesis
      by (cases "fst (check_status P w1)")
         (simp_all add: login.simps [of P cfg False w] check_status_def Let_def)
  qed
qed

lemma login_status_calls:
  "status_calls (snd (login P cfg retry w)) \<le> status_calls w + 2"
proof (cases "login_paths P cfg retry w")
  case (Pair r w1)
  note calls = login_paths_status_calls [OF Pair]
  show ?thesis
  proof (cases r)
    case (Inl e)
    with Pair calls show ?thesis by (simp add: login.simps [of P cfg retry w])
  next
    case (Inr r')
    show ?thesis
    proof (cases "status_ok (GetCurrentLoginStatus P (status_calls w1) (current_session w1))")
      case True
      with Pair Inr calls show ?thesis
        by (simp add: login.simps [of P cfg retry w] check_status_def Let_def)
    next
      case False
      show ?thesis
      proof (cases r')
        case True
        let ?w2 = "write_log RetryAfterCachedSession (unlink_session_file (snd (check_status P w1)))"
        from Pair Inr True \<open>\<not> status_ok _\<close>
        have "login P cfg retry w = login P cfg False ?w2"
          by (simp add: login_failed_retry)
        moreover have "status_calls ?w2 = status_calls w + 1" using calls by simp
        ultimately show ?thesis using login_status_calls_no_retry [of P cfg ?w2] by simp
      next
        case F: False
        with Pair Inr False have "login P cfg retry w =
           (Inl (RuntimeError LoginStateInvalid), unlink_session_file (snd (check_status P w1)))"
          by (simp add: login_failed_no_retry)
        with calls show ?thesis by simp
      qed
    qed
  qed
qed

text \<open>
  Claim C2. Let the first statement of \<^verbatim>\<open>login(retry)\<close> end without an exception, in the
  world \<open>w1\<close> and with the variable \<^verbatim>\<open>retry\<close> at \<open>retry'\<close>, and let the verification then
  fail. Then \<open>retry'\<close> holds only when \<open>retry\<close> was passed as true and the session file
  existed (the path of the stored session); the handler leaves no session file; when
  \<open>retry'\<close> is false, \<^verbatim>\<open>login\<close> raises the \<^verbatim>\<open>RuntimeError\<close> of the invalid login state after
  that one verification; when \<open>retry'\<close> is true, \<^verbatim>\<open>login\<close> is its own call with
  \<^verbatim>\<open>retry=False\<close> in the world without the file, and when the verification of that call
  fails as well, \<^verbatim>\<open>login\<close> raises the same \<^verbatim>\<open>RuntimeError\<close> after two verifications, the
  file again deleted. In every case \<^verbatim>\<open>login\<close> verifies at most twice.
\<close>

theorem login_retries_once_after_cached_session:
  assumes first: "login_paths P cfg retry w = (Inr retry', w1)"
    and failed: "\<not> status_ok (GetCurrentLoginStatus P (status_calls w1) (current_session w1))"
  shows "retry' = (retry \<and> session_file w \<noteq> None) \<and>
         session_file (unlink_session_file (snd (check_status P w1))) = None \<and>
         (\<not> retry' \<longrightarrow>
            login P cfg retry w =
              (Inl (RuntimeError LoginStateInvalid), unlink_session_file (snd (check_status P w1))) \<and>
            status_calls (snd (login P cfg retry w)) = status_calls w + 1) \<and>
         (retry' \<longrightarrow>
            login P cfg retry w =
              login P cfg False
                (write_log RetryAfterCachedSession (unlink_session_file (snd (check_status P w1)))) \<and>
            (\<forall>r2 w3.
               login_paths P cfg False
                 (write_log RetryAfterCachedSession (unlink_session_file (snd (check_status P w1))))
                 = (Inr r2, w3) \<and>
               \<not> status_ok (GetCurrentLoginStatus P (status_calls w3) (current_session w3)) \<longrightarrow>
               \<not> r2 \<and>
               login P cfg retry w =
                 (Inl (RuntimeError LoginStateInvalid), unlink_session_file (snd (check_status P w3))) \<and>
               session_file (unlink_session_file (snd (check_status P w3))) = None \<and>
               status_calls (snd (login P cfg retry w)) = status_calls w + 2)) \<and>
         status_calls (snd (login P cfg retry w)) \<le> status_calls w + 2"
proof -
  let ?w2 = "write_log RetryAfterCachedSession (unlink_session_file (snd (check_status P w1)))"
  note calls = login_paths_status_calls [OF first]
  have a: "retry' = (retry \<and> session_file w \<noteq> None)"
    using first by (rule login_paths_retry)
  have b: "login P cfg retry w =
              (Inl (RuntimeError LoginStateInvalid), unlink_session_file (snd (check_status P w1))) \<and>
           status_calls (snd (login P cfg retry w)) = status_calls w + 1" if "\<not> retry'"
    using that first failed calls by (simp add: login_failed_no_retry)
  have c: "login P cfg retry w = login P cfg False ?w2" if "retry'"
    using that first failed by (simp add: login_failed_retry)
  have d: "\<not> r2 \<and>
           login P cfg retry w =
             (Inl (RuntimeError LoginStateInvalid), unlink_session_file (snd (check_status P w3))) \<and>
           session_file (unlink_session_file (snd (check_status P w3))) = None \<and>
           status_calls (snd (login P cfg retry w)) = status_calls w + 2"
    if "retry'" and second: "login_paths P cfg False ?w2 = (Inr r2, w3)"
      and again: "\<not> status_ok (GetCurrentLoginStatus P (status_calls w3) (current_session w3))"
    for r2 w3
  proof -
    from login_paths_retry [OF second] have r2: "\<not> r2" by simp
    have calls3: "status_calls w3 = status_calls w + 1"
      using login_paths_status_calls [OF second] calls by simp
    from second r2 again have "login P cfg False ?w2 =
        (Inl (RuntimeError LoginStateInvalid), unlink_session_file (snd (check_status P w3)))"
      by (simp add: login_failed_no_retry)
    with c [OF \<open>retry'\<close>] r2 calls3 show ?thesis by simp
  qed
  have e: "session_file (unlink_session_file (snd (check_status P w1))) = None"
    by simp
  have f: "status_calls (snd (login P cfg retry w)) \<le> status_calls w + 2"
    by (rule login_status_calls)
  show ?thesis
  proof (intro conjI impI allI)
    show "retry' = (retry \<and> session_file w \<noteq> None)" by (rule a)
    show "session_file (unlink_session_file (snd (check_status P w1))) = None" by (rule e)
    show "status_calls (snd (login P cfg retry w)) \<le> status_calls w + 2" by (rule f)
  qed (use b c d in blast)+
qed

text \<open>
  A stored session that the service rejects and no account in the configuration: the
  file is deleted, the retry logs in as a guest, the service rejects that too, and
  \<^verbatim>\<open>login\<close> raises after two verifications and one retry.
\<close>

theorem login_retries_once_after_cached_session_witness:
  "login_paths (plain_pyncm []) no_account True
       \<lparr>session_file = Some ''stale'', current_session = ''start'', status_calls = 0, logged = []\<rparr>
     = (Inr True,
        \<lparr>session_file = Some ''stale'', current_session = ''stale'', status_calls = 0,
         logged = [UsingCachedSession]\<rparr>) \<and>
   \<not> status_ok (GetCurrentLoginStatus (plain_pyncm []) 0 ''stale'') \<and>
   login_paths (plain_pyncm []) no_account False
       \<lparr>session_file = None, current_session = ''stale'', status_calls = 1,
        logged = [UsingCachedSession, RetryAfterCachedSession]\<rparr>
     = (Inr False,
        \<lparr>session_file = None, current_session = ''guest'', status_calls = 1,
         logged = [UsingCachedSession, RetryAfterCachedSession, GuestLogin]\<rparr>) \<and>
   \<not> status_ok (GetCurrentLoginStatus (plain_pyncm []) 1 ''guest'') \<and>
   login (plain_pyncm []) no_account True
       \<lparr>session_file = Some ''stale'', current_session = ''start'', status_calls = 0, logged = []\<rparr>
     = (Inl (RuntimeError LoginStateInvalid),
        \<lparr>session_file = None, current_session = ''guest'', status_calls = 2,
         logged = [UsingCachedSession, RetryAfterCachedSession, GuestLogin]\<rparr>)"
proof -
  let ?P = "plain_pyncm []"
  let ?w = "\<lparr>session_file = Some ''stale'', current_session = ''start'', status_calls = 0,
             logged = []\<rparr>"
  let ?w1 = "\<lparr>session_file = Some ''stale'', current_session = ''stale'', status_calls = 0,
              logged = [UsingCachedSession]\<rparr>"
  let ?w2 = "\<lparr>session_file = None, current_session = ''stale'', status_calls = 1,
              logged = [UsingCachedSession, RetryAfterCachedSession]\<rparr>"
  let ?w3 = "\<lparr>session_file = None, current_session = ''guest'', status_calls = 1,
              logged = [UsingCachedSession, RetryAfterCachedSession, GuestLogin]\<rparr>"
  have first: "login_paths ?P no_account True ?w = (Inr True, ?w1)"
    by (simp add: login_paths_def plain_pyncm_def write_log_def)
  have failed: "\<not> status_ok (GetCurrentLoginStatus ?P (status_calls ?w1) (current_session ?w1))"
    by (simp add: plain_pyncm_def status_ok_def eq_int_def)
  have w2: "write_log RetryAfterCachedSession (unlink_session_file (snd (check_status ?P ?w1))) = ?w2"
    by (simp add: write_log_def unlink_session_file_def check_status_def)
  have second: "login_paths ?P no_account False ?w2 = (Inr False, ?w3)"
    by (simp add: login_paths_def plain_pyncm_def write_log_def no_account_def filled_def)
  have again: "\<not> status_ok (GetCurrentLoginStatus ?P (status_calls ?w3) (current_session ?w3))"
    by (simp add: plain_pyncm_def status_ok_def eq_int_def)
  have "login ?P no_account True ?w =
          (Inl (RuntimeError LoginStateInvalid), unlink_session_file (snd (check_status ?P ?w3)))"
  proof -
    note policy = login_retries_once_after_cached_session [OF first failed]
    note retried = policy [THEN conjunct2, THEN conjunct2, THEN conjunct2, THEN conjunct1,
        THEN mp, OF TrueI, THEN conjunct2, unfolded w2, rule_format, OF conjI, OF second again]
    then show ?thesis by (elim conjE)
  qed
  then have "login ?P no_account True ?w =
      (Inl (RuntimeError LoginStateInvalid),
        \<lparr>session_file = None, current_session = ''guest'', status_calls = 2,
         logged = [UsingCachedSession, RetryAfterCachedSession, GuestLogin]\<rparr>)"
    by (simp add: unlink_session_file_def check_status_def)
  with first failed second again show ?thesis by simp
qed

text \<open>
  The same stored session with a phone number and a password in the configuration,
  the service accepting the session of the phone login: the retry logs in, writes the
  new session to the file, and \<^verbatim>\<open>login\<close> returns.
\<close>

lemma login_recovers_with_account:
  "login (plain_pyncm [''phone 13800000000''])
     (no_account\<lparr>ncm_phone := Some ''13800000000'', ncm_password := Some ''secret''\<rparr>) True
     \<lparr>session_file = Some ''stale'', current_session = ''start'', status_calls = 0, logged = []\<rparr>
   = (Inr (),
      \<lparr>session_file = Some ''phone 13800000000'', current_session = ''phone 13800000000'',
       status_calls = 2,
       logged = [UsingCachedSession, RetryAfterCachedSession, LoginByPhone, LoginSucceeded]\<rparr>)"
  by (simp add: login.simps [of _ _ True] login.simps [of _ _ False] login_paths_def
      plain_pyncm_def no_account_def filled_def or_empty_def write_log_def check_status_def
      status_ok_def eq_int_def unlink_session_file_def)

end
